theory Spec2Isabelle
  imports Main
begin

section \<open>Strings\<close>

text \<open>
  JavaScript's \<open>String.prototype.includes\<close>: whether the second string occurs as a
  contiguous run of characters in the first.
\<close>

fun starts_with :: "string \<Rightarrow> string \<Rightarrow> bool" where
  "starts_with s [] = True"
| "starts_with [] (c # t) = False"
| "starts_with (x # s) (c # t) = (x = c \<and> starts_with s t)"

fun str_includes :: "string \<Rightarrow> string \<Rightarrow> bool" where
  "str_includes [] t = (t = [])"
| "str_includes (x # s) t = (starts_with (x # s) t \<or> str_includes s t)"

text \<open>Decimal rendering of a number inside a template literal.\<close>

definition digit_char :: "nat \<Rightarrow> char" where
  "digit_char d = char_of (48 + d)"

fun show_nat :: "nat \<Rightarrow> string" where
  "show_nat n = (if n < 10 then [digit_char n] else show_nat (n div 10) @ [digit_char (n mod 10)])"

declare show_nat.simps [simp del]

section \<open>Values exchanged with the editor\<close>

text \<open>A thrown JavaScript \<open>Error\<close>, reduced to its message.\<close>

datatype error = Error (message: string)

datatype json =
    JString string
  | JNumber int
  | JBool bool
  | JArray "json list"
  | JObject "(string \<times> json) list"

text \<open>The enumeration \<open>ProjectLanguage\<close>, with the members the test suite uses.\<close>

datatype ProjectLanguage = JavaScript | TypeScript | CSharp | PowerShell | Python

text \<open>A scripted answer handed to \<open>testUserInput.runWithInputs\<close>: a literal or a regular
  expression (pattern and flags).\<close>

datatype test_input = Str string | Regex string string

record request =
  url :: string
  body :: "json option"
  json :: bool

datatype node_action = Start | Stop | Restart

text \<open>
  What the editor and its collaborators were asked to do, in the order of the calls.
\<close>

datatype event =
    AppendLog string
  | AppendLine string
  | Refresh
  | ClipboardWrite string
  | ClipboardRead
  | ExecuteCommand string "test_input list"
  | SendRequest request
  | NodeAction string node_action
  | CliCreateFunctionApp string
  | WriteFile string string
  | OpenFolder string

text \<open>
  The state outside the program: the clipboard slot, the files on disk, the number of
  times the copy-URL command has been executed, and the calls made so far.
\<close>

record world =
  clipboard :: string
  files :: "string \<rightharpoonup> string"
  executed :: nat
  events :: "event list"

definition emit :: "event \<Rightarrow> world \<Rightarrow> world" where
  "emit e w = w\<lparr>events := events w @ [e]\<rparr>"

section \<open>Start, stop and restart of a function app\<close>

text \<open>
  A \<open>FunctionAppNode\<close> of the tree: its label, and for each of its three asynchronous
  methods whether the returned promise rejects (\<open>Some\<close> error) or resolves.
\<close>

record FunctionAppNode =
  label :: string
  start :: "error option"
  stop :: "error option"
  restart :: "error option"

definition appendLine :: "string \<Rightarrow> world \<Rightarrow> world" where
  "appendLine s w = emit (AppendLine s) w"

definition startFunctionApp :: "FunctionAppNode option \<Rightarrow> world \<Rightarrow> (error + unit) \<times> world" where
  "startFunctionApp node w =
     (case node of
        None \<Rightarrow> (Inr (), w)
      | Some n \<Rightarrow>
          (let w1 = appendLine (''Starting Function App \"'' @ label n @ ''\"...'') w;
               w2 = emit (NodeAction (label n) Start) w1
           in case start n of
                Some e \<Rightarrow> (Inl e, w2)
              | None \<Rightarrow> (Inr (), appendLine (''Function App \"'' @ label n @ ''\" has been started.'') w2)))"

definition stopFunctionApp :: "FunctionAppNode option \<Rightarrow> world \<Rightarrow> (error + unit) \<times> world" where
  "stopFunctionApp node w =
     (case node of
        None \<Rightarrow> (Inr (), w)
      | Some n \<Rightarrow>
          (let w1 = appendLine (''Stopping Function App \"'' @ label n @ ''\"...'') w;
               w2 = emit (NodeAction (label n) Stop) w1
           in case stop n of
                Some e \<Rightarrow> (Inl e, w2)
              | None \<Rightarrow> (Inr (), appendLine (''Function App \"'' @ label n @ ''\" has been stopped.'') w2)))"

definition restartFunctionApp :: "FunctionAppNode option \<Rightarrow> world \<Rightarrow> (error + unit) \<times> world" where
  "restartFunctionApp node w =
     (case node of
        None \<Rightarrow> (Inr (), w)
      | Some n \<Rightarrow>
          (let w1 = appendLine (''Restarting Function App \"'' @ label n @ ''\"...'') w;
               w2 = emit (NodeAction (label n) Restart) w1
           in case restart n of
                Some e \<Rightarrow> (Inl e, w2)
              | None \<Rightarrow> (Inr (), appendLine (''Function App \"'' @ label n @ ''\" has been restarted.'') w2)))"

section \<open>Resolving the URL of a deployed function\<close>

text \<open>
  What one execution of the command \<open>azureFunctions.copyFunctionUrl\<close> under
  \<open>testUserInput.runWithInputs\<close> does: it throws, or it puts a URL on the clipboard.
\<close>

datatype outcome = Throws error | Copies string

text \<open>
  The collaborators of the verification flow, none of which is defined in the source:
  \<^item> \<open>runWithInputs\<close>: the outcome of the k-th execution of the copy-URL command, given
    the scripted inputs (k counts from 1);
  \<^item> \<open>parseError\<close>: the message that \<open>parseError(error).message\<close> reads from a thrown
    value;
  \<^item> \<open>sendRequest\<close>: the response body of \<open>requestUtils.sendRequest\<close>, or its error;
  \<^item> \<open>exhausted\<close>: the error the retry library rejects with once the budget is used up,
    chosen from the errors the attempts raised, in order.
\<close>

record collab =
  runWithInputs :: "test_input list \<Rightarrow> nat \<Rightarrow> outcome"
  parseError :: "error \<Rightarrow> string"
  sendRequest :: "request \<Rightarrow> error + string"
  exhausted :: "error list \<Rightarrow> error"

definition appendLog :: "string \<Rightarrow> world \<Rightarrow> world" where
  "appendLog s w = emit (AppendLog s) w"

text \<open>
  Modelled from the spec: \<open>ext.tree.refresh\<close>, which is not in the source. It re-syncs
  the tree; it returns no value, does not fail and leaves the clipboard alone.
\<close>

definition tree_refresh :: "world \<Rightarrow> world" where
  "tree_refresh w = emit Refresh w"

definition clipboard_writeText :: "string \<Rightarrow> world \<Rightarrow> world" where
  "clipboard_writeText s w = emit (ClipboardWrite s) (w\<lparr>clipboard := s\<rparr>)"

definition clipboard_readText :: "world \<Rightarrow> string \<times> world" where
  "clipboard_readText w = (clipboard w, emit ClipboardRead w)"

definition copy_inputs :: "string \<Rightarrow> string \<Rightarrow> ProjectLanguage \<Rightarrow> test_input list" where
  "copy_inputs appName functionName projectLanguage =
     (if projectLanguage \<noteq> CSharp then [Regex ''^((?!Local Project).)*$'' ''i''] else [])
     @ [Str appName, Str functionName]"

definition copyFunctionUrl ::
  "collab \<Rightarrow> string \<Rightarrow> string \<Rightarrow> ProjectLanguage \<Rightarrow> world \<Rightarrow> (error + unit) \<times> world" where
  "copyFunctionUrl c appName functionName projectLanguage w =
     (let inputs = copy_inputs appName functionName projectLanguage;
          w1 = clipboard_writeText [] w;
          k = Suc (executed w1);
          w2 = emit (ExecuteCommand ''azureFunctions.copyFunctionUrl'' inputs) (w1\<lparr>executed := k\<rparr>)
      in case runWithInputs c inputs k of
           Throws e \<Rightarrow> (Inl e, w2)
         | Copies u \<Rightarrow> (Inr (), w2\<lparr>clipboard := u\<rparr>))"

text \<open>
  How an attempt ends when it does not succeed: it rethrows the error it caught, or it
  throws \<open>new retry.AbortError(message)\<close>.
\<close>

datatype attempt_failure = Rethrown error | AbortError string

text \<open>The test of the catch clause: only errors with such a message are retried.\<close>

definition retryable :: "collab \<Rightarrow> string \<Rightarrow> error \<Rightarrow> bool" where
  "retryable c functionName e =
     (let message = parseError c e
      in str_includes message ''inputs'' \<and> str_includes message functionName)"

text \<open>The function handed to \<open>retry\<close>, for a budget of \<open>n\<close> retries.\<close>

definition attempt ::
  "collab \<Rightarrow> nat \<Rightarrow> string \<Rightarrow> string \<Rightarrow> ProjectLanguage \<Rightarrow> nat \<Rightarrow> world
    \<Rightarrow> (attempt_failure + unit) \<times> world" where
  "attempt c n appName functionName projectLanguage currentAttempt w =
     (let w1 = appendLog (''copyFunctionUrl attempt '' @ show_nat currentAttempt @ ''/''
                          @ show_nat (n + 1) @ ''...'') w;
          w2 = (if currentAttempt \<noteq> 1 then tree_refresh w1 else w1)
      in case copyFunctionUrl c appName functionName projectLanguage w2 of
           (Inr u, w3) \<Rightarrow> (Inr u, w3)
         | (Inl e, w3) \<Rightarrow>
             (if retryable c functionName e then (Inl (Rethrown e), w3)
              else (Inl (AbortError (parseError c e)), w3)))"

text \<open>The options object handed to \<open>retry\<close>.\<close>

record retry_options =
  opt_retries :: nat
  minTimeout :: nat

text \<open>
  Modelled from the spec: the function \<open>retry\<close> of the npm package p-retry, which the
  source imports and does not define. It calls \<open>input\<close> with the attempt number, from
  1 on. A result ends the loop with success. An \<open>AbortError\<close> ends it at once with a new
  error that carries the given message. Any other error is retried while retries are
  left. When none is left the loop rejects with one of the errors raised: which one is
  the library's choice, here the parameter \<open>pick\<close> applied to the errors raised, in
  order. The waiting between two attempts is the library's too and is not modelled:
  \<open>minTimeout\<close> is passed on and not interpreted.
\<close>

primrec retry_from ::
  "(error list \<Rightarrow> error) \<Rightarrow> (nat \<Rightarrow> world \<Rightarrow> (attempt_failure + unit) \<times> world)
    \<Rightarrow> nat \<Rightarrow> nat \<Rightarrow> error list \<Rightarrow> world \<Rightarrow> (error + unit) \<times> world" where
  "retry_from pick input 0 k errs w =
     (case input k w of
        (Inr u, w') \<Rightarrow> (Inr u, w')
      | (Inl (AbortError m), w') \<Rightarrow> (Inl (Error m), w')
      | (Inl (Rethrown e), w') \<Rightarrow> (Inl (pick (errs @ [e])), w'))"
| "retry_from pick input (Suc left) k errs w =
     (case input k w of
        (Inr u, w') \<Rightarrow> (Inr u, w')
      | (Inl (AbortError m), w') \<Rightarrow> (Inl (Error m), w')
      | (Inl (Rethrown e), w') \<Rightarrow> retry_from pick input left (Suc k) (errs @ [e]) w')"

definition retry ::
  "(error list \<Rightarrow> error) \<Rightarrow> (nat \<Rightarrow> world \<Rightarrow> (attempt_failure + unit) \<times> world)
    \<Rightarrow> retry_options \<Rightarrow> world \<Rightarrow> (error + unit) \<times> world" where
  "retry pick input options w = retry_from pick input (opt_retries options) 1 [] w"

text \<open>The call \<open>retry(..., { retries, minTimeout: 5 * 1000 })\<close>, for any number of retries.\<close>

definition resolveFunctionUrl ::
  "collab \<Rightarrow> nat \<Rightarrow> string \<Rightarrow> string \<Rightarrow> ProjectLanguage \<Rightarrow> world \<Rightarrow> (error + unit) \<times> world" where
  "resolveFunctionUrl c n appName functionName projectLanguage w =
     retry (exhausted c) (attempt c n appName functionName projectLanguage)
       \<lparr>opt_retries = n, minTimeout = 5 * 1000\<rparr> w"

definition retries :: nat where
  "retries = 4"

text \<open>
  Modelled from the spec: \<open>requestUtils.getDefaultRequest\<close>, which is not in the source:
  a request addressed to the given URL, without a body.
\<close>

definition getDefaultRequest :: "string \<Rightarrow> request" where
  "getDefaultRequest u = \<lparr>url = u, body = None, json = False\<rparr>"

definition assert_ok :: "bool \<Rightarrow> string \<Rightarrow> error + unit" where
  "assert_ok v msg = (if v then Inr () else Inl (Error msg))"

definition validateFunctionUrl ::
  "collab \<Rightarrow> string \<Rightarrow> string \<Rightarrow> ProjectLanguage \<Rightarrow> world \<Rightarrow> (error + unit) \<times> world" where
  "validateFunctionUrl c appName functionName projectLanguage w =
     (case resolveFunctionUrl c retries appName functionName projectLanguage w of
        (Inl e, w1) \<Rightarrow> (Inl e, w1)
      | (Inr u, w1) \<Rightarrow>
          (case clipboard_readText w1 of
             (functionUrl, w2) \<Rightarrow>
               (let req = (getDefaultRequest functionUrl)
                            \<lparr>body := Some (JObject [(''name'', JString ''World'')]), json := True\<rparr>;
                    w3 = emit (SendRequest req) w2
                in case sendRequest c req of
                     Inl e \<Rightarrow> (Inl e, w3)
                   | Inr response \<Rightarrow>
                       (assert_ok (str_includes response ''Hello'' \<and> str_includes response ''World'')
                          ''Expected function response to include \"Hello\" and \"World\"'', w3))))"

text \<open>The calls one attempt makes, in order, and the calls of \<open>m\<close> attempts from the k-th on.\<close>

definition attempt_events ::
  "nat \<Rightarrow> string \<Rightarrow> string \<Rightarrow> ProjectLanguage \<Rightarrow> nat \<Rightarrow> event list" where
  "attempt_events n appName functionName projectLanguage k =
     [AppendLog (''copyFunctionUrl attempt '' @ show_nat k @ ''/'' @ show_nat (n + 1) @ ''...'')]
     @ (if k \<noteq> 1 then [Refresh] else [])
     @ [ClipboardWrite [],
        ExecuteCommand ''azureFunctions.copyFunctionUrl'' (copy_inputs appName functionName projectLanguage)]"

definition attempts_events ::
  "nat \<Rightarrow> string \<Rightarrow> string \<Rightarrow> ProjectLanguage \<Rightarrow> nat \<Rightarrow> nat \<Rightarrow> event list" where
  "attempts_events n appName functionName projectLanguage k m =
     concat (map (attempt_events n appName functionName projectLanguage) [k..<k + m])"

definition is_attempt_log :: "event \<Rightarrow> bool" where
  "is_attempt_log e = (case e of AppendLog s \<Rightarrow> True | _ \<Rightarrow> False)"

definition count_events :: "(event \<Rightarrow> bool) \<Rightarrow> event list \<Rightarrow> nat" where
  "count_events P es = length (filter P es)"

text \<open>The world after one attempt, and after \<open>m\<close> attempts from the k-th on, that all threw.\<close>

definition after_attempt ::
  "nat \<Rightarrow> string \<Rightarrow> string \<Rightarrow> ProjectLanguage \<Rightarrow> nat \<Rightarrow> world \<Rightarrow> world" where
  "after_attempt n appName functionName projectLanguage k w =
     w\<lparr>clipboard := [], executed := Suc (executed w),
       events := events w @ attempt_events n appName functionName projectLanguage k\<rparr>"

primrec after_attempts ::
  "nat \<Rightarrow> string \<Rightarrow> string \<Rightarrow> ProjectLanguage \<Rightarrow> nat \<Rightarrow> nat \<Rightarrow> world \<Rightarrow> world" where
  "after_attempts n appName functionName projectLanguage k 0 w = w"
| "after_attempts n appName functionName projectLanguage k (Suc m) w =
     after_attempts n appName functionName projectLanguage (Suc k) m
       (after_attempt n appName functionName projectLanguage k w)"

text \<open>The request of the final check, and the test for a request among the calls.\<close>

definition hello_request :: "string \<Rightarrow> request" where
  "hello_request u = \<lparr>url = u, body = Some (JObject [(''name'', JString ''World'')]), json = True\<rparr>"

definition is_send_request :: "event \<Rightarrow> bool" where
  "is_send_request e = (case e of SendRequest r \<Rightarrow> True | _ \<Rightarrow> False)"

text \<open>
  The test for an execution of a command among the calls, and the check that every
  execution of a command in a run of calls comes right after a write of the empty
  string to the clipboard; \<open>prev\<close> is the call before the run.
\<close>

definition is_execute :: "event \<Rightarrow> bool" where
  "is_execute e = (case e of ExecuteCommand cmd inputs \<Rightarrow> True | _ \<Rightarrow> False)"

fun cleared_first :: "event option \<Rightarrow> event list \<Rightarrow> bool" where
  "cleared_first prev [] = True"
| "cleared_first prev (e # es) =
     ((if is_execute e then prev = Some (ClipboardWrite []) else True)
      \<and> cleared_first (Some e) es)"

section \<open>Creating a function app\<close>

text \<open>The class \<open>QuickPickItemWithData\<close>: label, description and data of a pick.\<close>

datatype QuickPickItemWithData =
  QuickPickItemWithData (pick_label: string) (pick_description: "string option") (pick_data: "string option")

text \<open>
  What surrounds \<open>createFunctionApp\<close> and is not defined in the source:
  \<^item> \<open>workspaceFolders\<close>: the paths of \<open>vscode.workspace.workspaceFolders\<close>, or undefined;
  \<^item> \<open>showQuickPick\<close>: the item the user picks from the offered ones, or the error thrown;
  \<^item> \<open>showFolderDialog\<close>: the folder the user chooses, or the error thrown;
  \<^item> \<open>cliCreateFunctionApp\<close>: what \<open>functionsCli.createFunctionApp\<close> makes of the files
    when run on a folder, or its error;
  \<^item> \<open>JSON_stringify\<close>: the text of a value under a given indentation.
\<close>

record editor =
  workspaceFolders :: "string list option"
  showQuickPick :: "QuickPickItemWithData list \<Rightarrow> error + QuickPickItemWithData"
  showFolderDialog :: "error + string"
  cliCreateFunctionApp :: "string \<Rightarrow> (string \<rightharpoonup> string) \<Rightarrow> error + (string \<rightharpoonup> string)"
  JSON_stringify :: "json \<Rightarrow> string \<Rightarrow> string"

text \<open>\<open>path.join\<close> on segments that need no normalising: the segments with a separator between.\<close>

fun path_join :: "string list \<Rightarrow> string" where
  "path_join [] = ''.''"
| "path_join [s] = s"
| "path_join (s # t # ss) = s @ ''/'' @ path_join (t # ss)"

definition existsSync :: "string \<Rightarrow> world \<Rightarrow> bool" where
  "existsSync p w = (p \<in> dom (files w))"

text \<open>
  Modelled from the spec: \<open>util.writeToFile\<close>, which is not in the source: the file at the
  path holds the given text afterwards.
\<close>

definition writeToFile :: "string \<Rightarrow> string \<Rightarrow> world \<Rightarrow> world" where
  "writeToFile p txt w = emit (WriteFile p txt) (w\<lparr>files := (files w)(p \<mapsto> txt)\<rparr>)"

definition taskId :: string where
  "taskId = ''launchFunctionApp''"

definition tasksJson :: json where
  "tasksJson =
     JObject [
       (''version'', JString ''2.0.0''),
       (''tasks'', JArray [
          JObject [
            (''taskName'', JString ''Launch Function App''),
            (''identifier'', JString taskId),
            (''type'', JString ''shell''),
            (''command'', JString ''func host start''),
            (''group'', JString ''none''),
            (''presentation'', JObject [
               (''reveal'', JString ''always''),
               (''panel'', JString ''dedicated'')]),
            (''isBackground'', JBool True)]])]"

definition launchJson :: json where
  "launchJson =
     JObject [
       (''version'', JString ''0.2.0''),
       (''configurations'', JArray [
          JObject [
            (''name'', JString ''Attach to Azure Functions''),
            (''type'', JString ''node''),
            (''request'', JString ''attach''),
            (''port'', JNumber 5858),
            (''preLaunchTask'', JString taskId)]])]"

definition folderPicks :: "editor \<Rightarrow> QuickPickItemWithData list" where
  "folderPicks ed =
     [QuickPickItemWithData ''$(plus) New Folder'' None (Some ''newFolder'')]
     @ (case workspaceFolders ed of
          None \<Rightarrow> []
        | Some folders \<Rightarrow> map (\<lambda>f. QuickPickItemWithData f None None) folders)"

definition createFunctionApp :: "editor \<Rightarrow> world \<Rightarrow> (error + unit) \<times> world" where
  "createFunctionApp ed w =
     (case showQuickPick ed (folderPicks ed) of
        Inl e \<Rightarrow> (Inl e, w)
      | Inr folder \<Rightarrow>
          (let createNewFolder = (pick_data folder = Some ''newFolder'')
           in case (if createNewFolder then showFolderDialog ed else Inr (pick_label folder)) of
                Inl e \<Rightarrow> (Inl e, w)
              | Inr functionAppPath \<Rightarrow>
                  (let tasksJsonPath = path_join [functionAppPath, ''.vscode'', ''tasks.json''];
                       tasksJsonExists = existsSync tasksJsonPath w;
                       launchJsonPath = path_join [functionAppPath, ''.vscode'', ''launch.json''];
                       launchJsonExists = existsSync launchJsonPath w;
                       w1 = emit (CliCreateFunctionApp functionAppPath) w
                   in case cliCreateFunctionApp ed functionAppPath (files w1) of
                        Inl e \<Rightarrow> (Inl e, w1)
                      | Inr fs \<Rightarrow>
                          (let w2 = w1\<lparr>files := fs\<rparr>;
                               w3 = (if \<not> tasksJsonExists \<and> \<not> launchJsonExists
                                     then writeToFile launchJsonPath (JSON_stringify ed launchJson ''    '')
                                            (writeToFile tasksJsonPath (JSON_stringify ed tasksJson ''    '') w2)
                                     else w2);
                               w4 = (if createNewFolder then emit (OpenFolder functionAppPath) w3 else w3)
                           in (Inr (), w4)))))"

text \<open>Reading a JSON value: a member of an object, the only element of an array.\<close>

definition json_member :: "string \<Rightarrow> json \<Rightarrow> json option" where
  "json_member k j = (case j of JObject kvs \<Rightarrow> map_of kvs k | _ \<Rightarrow> None)"

definition only_element :: "json \<Rightarrow> json option" where
  "only_element j = (case j of JArray [x] \<Rightarrow> Some x | _ \<Rightarrow> None)"

definition only_member :: "string \<Rightarrow> json \<Rightarrow> json option" where
  "only_member k j = Option.bind (json_member k j) only_element"

definition is_write :: "event \<Rightarrow> bool" where
  "is_write e = (case e of WriteFile p txt \<Rightarrow> True | _ \<Rightarrow> False)"

section \<open>The scenarios of the specification, as concrete collaborators\<close>

definition race_error :: error where
  "race_error = Error ''Not all inputs were used: funcAB12''"

text \<open>The first \<open>k\<close> executions of the copy command throw the race error, the next ones
  copy the URL; the deployed function greets.\<close>

definition scenario :: "nat \<Rightarrow> collab" where
  "scenario k =
     \<lparr>runWithInputs = (\<lambda>inputs i. if i \<le> k then Throws race_error
                                   else Copies ''https://appX.azurewebsites.net/api/funcAB12''),
      parseError = message,
      sendRequest = (\<lambda>r. Inr ''Hello, World''),
      exhausted = last\<rparr>"

text \<open>The first execution throws an error that is not the race error.\<close>

definition timeout_scenario :: collab where
  "timeout_scenario =
     \<lparr>runWithInputs = (\<lambda>inputs i. Throws (Error ''network timeout'')),
      parseError = message,
      sendRequest = (\<lambda>r. Inr ''Hello, World''),
      exhausted = last\<rparr>"

definition fresh_world :: world where
  "fresh_world = \<lparr>clipboard = ''stale'', files = Map.empty, executed = 0, events = []\<rparr>"

text \<open>As \<open>scenario k\<close>, with a deployed function that does not echo the name.\<close>

definition hello_only :: "nat \<Rightarrow> collab" where
  "hello_only k = (scenario k)\<lparr>sendRequest := (\<lambda>r. Inr ''Hello'')\<rparr>"

definition scenario_url :: string where
  "scenario_url = ''https://appX.azurewebsites.net/api/funcAB12''"

text \<open>
  An editor with one workspace folder, which the user picks; the command-line tool
  adds \<open>host.json\<close> to the folder.
\<close>

definition demo_editor :: editor where
  "demo_editor =
     \<lparr>workspaceFolders = Some [''/work/app''],
      showQuickPick = (\<lambda>items. Inr (last items)),
      showFolderDialog = Inr ''/work/new'',
      cliCreateFunctionApp = (\<lambda>p fs. Inr (fs(path_join [p, ''host.json''] \<mapsto> ''{}''))),
      JSON_stringify = (\<lambda>j indent. if j = tasksJson then ''tasks'' else ''launch'')\<rparr>"

definition configured_world :: world where
  "configured_world =
     fresh_world\<lparr>files := [''/work/app/.vscode/launch.json'' \<mapsto> ''mine'']\<rparr>"

text \<open>
  An error whose message is the text of a JSON object, and a \<open>parseError\<close> that reads
  the message out of that text and returns the message of any other error as it is.
  The copy command throws this error every time.
\<close>

definition azure_json :: string where
  "azure_json = ''{\"Message\":\"site is stopped\",\"Target\":\"inputs of funcAB12\"}''"

definition rewriting :: collab where
  "rewriting =
     \<lparr>runWithInputs = (\<lambda>inputs i. Throws (Error azure_json)),
      parseError = (\<lambda>e. if message e = azure_json then ''site is stopped'' else message e),
      sendRequest = (\<lambda>r. Inr ''Hello, World''),
      exhausted = last\<rparr>"

section \<open>Lemmas about one attempt and the retry loop\<close>

lemma resolve_unfold:
  "resolveFunctionUrl c n a f l w = retry_from (exhausted c) (attempt c n a f l) n 1 [] w"
  by (simp add: resolveFunctionUrl_def retry_def)

lemma attempt_unfold:
  "attempt c n a f l k w =
     (case runWithInputs c (copy_inputs a f l) (Suc (executed w)) of
        Throws e \<Rightarrow>
          (if retryable c f e then Inl (Rethrown e) else Inl (AbortError (parseError c e)),
           after_attempt n a f l k w)
      | Copies u \<Rightarrow> (Inr (), (after_attempt n a f l k w)\<lparr>clipboard := u\<rparr>))"
  by (simp add: attempt_def copyFunctionUrl_def appendLog_def tree_refresh_def
      clipboard_writeText_def emit_def after_attempt_def attempt_events_def Let_def
      split: outcome.split)

lemma after_attempts_events:
  "events (after_attempts n a f l k m w) = events w @ attempts_events n a f l k m"
  by (induction m arbitrary: k w)
     (simp_all add: attempts_events_def after_attempt_def upt_rec)

lemma after_attempts_executed:
  "executed (after_attempts n a f l k m w) = executed w + m"
  by (induction m arbitrary: k w) (simp_all add: after_attempt_def)

lemma after_attempts_clipboard:
  "clipboard (after_attempts n a f l k m w) = (if m = 0 then clipboard w else [])"
  by (induction m arbitrary: k w) (simp_all add: after_attempt_def)

lemma after_attempts_files:
  "files (after_attempts n a f l k m w) = files w"
  by (induction m arbitrary: k w) (simp_all add: after_attempt_def)

lemma after_attempts_snoc:
  "after_attempts n a f l k (Suc m) w =
     after_attempt n a f l (k + m) (after_attempts n a f l k m w)"
  by (induction m arbitrary: k w) simp_all

lemma retry_from_failures:
  assumes "\<forall>i<j. \<exists>e. runWithInputs c (copy_inputs a f l) (executed w + Suc i) = Throws e
                    \<and> retryable c f e"
    and "j \<le> left"
  shows "\<exists>errs'. retry_from pick (attempt c n a f l) left k errs w =
           retry_from pick (attempt c n a f l) (left - j) (k + j) errs'
             (after_attempts n a f l k j w)"
  using assms
proof (induction j arbitrary: left k errs w)
  case 0
  then show ?case by auto
next
  case (Suc j)
  from Suc.prems(2) obtain left' where left: "left = Suc left'" and le: "j \<le> left'"
    by (cases left) auto
  from Suc.prems(1) obtain e where
    e: "runWithInputs c (copy_inputs a f l) (Suc (executed w)) = Throws e" "retryable c f e"
    by fastforce
  let ?w1 = "after_attempt n a f l k w"
  have step: "retry_from pick (attempt c n a f l) left k errs w =
              retry_from pick (attempt c n a f l) left' (Suc k) (errs @ [e]) ?w1"
    by (simp add: left attempt_unfold e)
  have ex1: "executed ?w1 = Suc (executed w)" by (simp add: after_attempt_def)
  have "\<forall>i<j. \<exists>e. runWithInputs c (copy_inputs a f l) (executed ?w1 + Suc i) = Throws e
                    \<and> retryable c f e"
  proof (intro allI impI)
    fix i assume "i < j"
    then have "Suc i < Suc j" by simp
    with Suc.prems(1) show "\<exists>e. runWithInputs c (copy_inputs a f l) (executed ?w1 + Suc i) = Throws e
                    \<and> retryable c f e"
      unfolding ex1 by (metis add_Suc_right add_Suc)
  qed
  from Suc.IH[OF this le, of "Suc k" "errs @ [e]"] obtain errs' where
    "retry_from pick (attempt c n a f l) left' (Suc k) (errs @ [e]) ?w1 =
     retry_from pick (attempt c n a f l) (left' - j) (Suc k + j) errs'
       (after_attempts n a f l (Suc k) j ?w1)" by blast
  with step show ?case by (auto simp: left)
qed

lemma retry_from_success:
  assumes "runWithInputs c (copy_inputs a f l) (Suc (executed w)) = Copies u"
  shows "retry_from pick (attempt c n a f l) left k errs w =
           (Inr (), (after_attempt n a f l k w)\<lparr>clipboard := u\<rparr>)"
  using assms by (cases left) (simp_all add: attempt_unfold)

lemma retry_from_abort:
  assumes "runWithInputs c (copy_inputs a f l) (Suc (executed w)) = Throws e"
    and "\<not> retryable c f e"
  shows "retry_from pick (attempt c n a f l) left k errs w =
           (Inl (Error (parseError c e)), after_attempt n a f l k w)"
  using assms by (cases left) (simp_all add: attempt_unfold)

lemma retry_from_exhausted:
  assumes "runWithInputs c (copy_inputs a f l) (Suc (executed w)) = Throws e"
    and "retryable c f e"
  shows "retry_from pick (attempt c n a f l) 0 k errs w =
           (Inl (pick (errs @ [e])), after_attempt n a f l k w)"
  using assms by (simp add: attempt_unfold)

lemma attempts_events_Suc:
  "attempts_events n a f l k (Suc m) =
     attempt_events n a f l k @ attempts_events n a f l (Suc k) m"
  by (simp add: attempts_events_def upt_rec)

lemma attempts_events_0: "attempts_events n a f l k 0 = []"
  by (simp add: attempts_events_def)

lemma count_attempt_logs:
  "count_events is_attempt_log (attempts_events n a f l k m) = m"
  by (induction m arbitrary: k)
     (simp_all add: attempts_events_0 attempts_events_Suc count_events_def attempt_events_def
        is_attempt_log_def)

lemma count_refresh_later:
  "2 \<le> k \<Longrightarrow> count_events (\<lambda>e. e = Refresh) (attempts_events n a f l k m) = m"
  by (induction m arbitrary: k)
     (simp_all add: attempts_events_0 attempts_events_Suc count_events_def attempt_events_def)

lemma count_refresh_first:
  "count_events (\<lambda>e. e = Refresh) (attempts_events n a f l 1 m) = m - 1"
proof (cases m)
  case 0
  then show ?thesis by (simp add: attempts_events_0 count_events_def)
next
  case (Suc m')
  have "count_events (\<lambda>e. e = Refresh) (attempts_events n a f l (Suc 1) m') = m'"
    by (rule count_refresh_later) simp
  then show ?thesis
    by (simp add: Suc attempts_events_Suc count_events_def attempt_events_def)
qed

lemma after_attempt_fields:
  "events (after_attempt n a f l k w) = events w @ attempt_events n a f l k"
  "executed (after_attempt n a f l k w) = Suc (executed w)"
  "clipboard (after_attempt n a f l k w) = []"
  "files (after_attempt n a f l k w) = files w"
  by (simp_all add: after_attempt_def)

lemma attempts_events_snoc:
  "attempts_events n a f l k (Suc m) =
     attempts_events n a f l k m @ attempt_events n a f l (k + m)"
  by (simp add: attempts_events_def)

lemma retry_then_success_aux:
  assumes "k \<le> N"
    and "\<forall>i\<in>{1..k}. \<exists>e. runWithInputs c (copy_inputs a f l) (executed w + i) = Throws e
                          \<and> retryable c f e"
    and "runWithInputs c (copy_inputs a f l) (executed w + k + 1) = Copies u"
  shows "resolveFunctionUrl c N a f l w =
           (Inr (), (after_attempts N a f l 1 (Suc k) w)\<lparr>clipboard := u\<rparr>)"
proof -
  have fails: "\<forall>i<k. \<exists>e. runWithInputs c (copy_inputs a f l) (executed w + Suc i) = Throws e
                    \<and> retryable c f e"
  proof (intro allI impI)
    fix i assume "i < k"
    then have "Suc i \<in> {1..k}" by simp
    with assms(2) show "\<exists>e. runWithInputs c (copy_inputs a f l) (executed w + Suc i) = Throws e
                    \<and> retryable c f e" by blast
  qed
  from retry_from_failures[OF fails assms(1), of "exhausted c" N 1 "[]"] obtain errs' where
    eq: "retry_from (exhausted c) (attempt c N a f l) N 1 [] w =
         retry_from (exhausted c) (attempt c N a f l) (N - k) (1 + k) errs'
           (after_attempts N a f l 1 k w)" by blast
  have "runWithInputs c (copy_inputs a f l) (Suc (executed (after_attempts N a f l 1 k w))) = Copies u"
    using assms(3) by (simp add: after_attempts_executed)
  from retry_from_success[OF this] eq show ?thesis
    by (simp add: resolve_unfold after_attempts_snoc del: after_attempts.simps)
qed



lemma retry_from_bound:
  "\<exists>m. 1 \<le> m \<and> m \<le> Suc left
     \<and> executed (snd (retry_from pick (attempt c n a f l) left k errs w)) = executed w + m
     \<and> events (snd (retry_from pick (attempt c n a f l) left k errs w)) =
         events w @ attempts_events n a f l k m
     \<and> (fst (retry_from pick (attempt c n a f l) left k errs w) = Inr ()
          \<longleftrightarrow> (\<exists>u. runWithInputs c (copy_inputs a f l) (executed w + m) = Copies u))"
proof (induction left arbitrary: k errs w)
  case 0
  have "executed (snd (retry_from pick (attempt c n a f l) 0 k errs w)) = executed w + 1
     \<and> events (snd (retry_from pick (attempt c n a f l) 0 k errs w)) =
         events w @ attempts_events n a f l k 1
     \<and> (fst (retry_from pick (attempt c n a f l) 0 k errs w) = Inr ()
          \<longleftrightarrow> (\<exists>u. runWithInputs c (copy_inputs a f l) (executed w + 1) = Copies u))"
    by (simp add: attempt_unfold after_attempt_fields attempts_events_def
        split: outcome.split)
  then show ?case by (intro exI[of _ 1]) simp
next
  case (Suc left)
  let ?R = "retry_from pick (attempt c n a f l) (Suc left) k errs w"
  show ?case
  proof (cases "\<exists>e. runWithInputs c (copy_inputs a f l) (Suc (executed w)) = Throws e
                     \<and> retryable c f e")
    case True
    then obtain e where
      e: "runWithInputs c (copy_inputs a f l) (Suc (executed w)) = Throws e" "retryable c f e"
      by blast
    let ?w1 = "after_attempt n a f l k w"
    have step: "?R = retry_from pick (attempt c n a f l) left (Suc k) (errs @ [e]) ?w1"
      by (simp add: attempt_unfold e)
    from Suc.IH[of "Suc k" "errs @ [e]" ?w1] obtain m where
      m: "1 \<le> m" "m \<le> Suc left"
         "executed (snd ?R) = executed ?w1 + m"
         "events (snd ?R) = events ?w1 @ attempts_events n a f l (Suc k) m"
         "fst ?R = Inr () \<longleftrightarrow>
            (\<exists>u. runWithInputs c (copy_inputs a f l) (executed ?w1 + m) = Copies u)"
      unfolding step by blast
    have "1 \<le> Suc m \<and> Suc m \<le> Suc (Suc left)
      \<and> executed (snd ?R) = executed w + Suc m
      \<and> events (snd ?R) = events w @ attempts_events n a f l k (Suc m)
      \<and> (fst ?R = Inr () \<longleftrightarrow>
            (\<exists>u. runWithInputs c (copy_inputs a f l) (executed w + Suc m) = Copies u))"
      using m by (simp add: after_attempt_fields attempts_events_Suc)
    then show ?thesis by blast
  next
    case False
    have "executed (snd ?R) = executed w + 1
      \<and> events (snd ?R) = events w @ attempts_events n a f l k 1
      \<and> (fst ?R = Inr ()
          \<longleftrightarrow> (\<exists>u. runWithInputs c (copy_inputs a f l) (executed w + 1) = Copies u))"
      using False
      by (simp add: attempt_unfold after_attempt_fields attempts_events_def
          split: outcome.split)
    then show ?thesis by (intro exI[of _ 1]) simp
  qed
qed

lemma retry_from_success_clipboard:
  "retry_from pick (attempt c n a f l) left k errs w = (Inr (), w1) \<Longrightarrow>
     runWithInputs c (copy_inputs a f l) (executed w1) = Copies (clipboard w1)"
proof (induction left arbitrary: k errs w)
  case 0
  then show ?case
    by (auto simp: attempt_unfold after_attempt_fields split: outcome.splits if_splits)
next
  case (Suc left)
  then show ?case
    by (auto simp: attempt_unfold after_attempt_fields split: outcome.splits if_splits)
qed

lemma validateFunctionUrl_failed:
  "fst (resolveFunctionUrl c retries a f l w) = Inl e \<Longrightarrow>
     validateFunctionUrl c a f l w = resolveFunctionUrl c retries a f l w"
  by (cases "resolveFunctionUrl c retries a f l w")
     (simp add: validateFunctionUrl_def split: sum.split)

lemma abort_aux:
  assumes "1 \<le> k" and "k \<le> N + 1"
    and "\<forall>i\<in>{1..<k}. \<exists>e. runWithInputs c (copy_inputs a f l) (executed w + i) = Throws e
                          \<and> retryable c f e"
    and "runWithInputs c (copy_inputs a f l) (executed w + k) = Throws e"
    and "\<not> retryable c f e"
  shows "resolveFunctionUrl c N a f l w =
           (Inl (Error (parseError c e)), after_attempts N a f l 1 k w)"
proof -
  from assms(1) obtain j where k: "k = Suc j" by (cases k) auto
  have jN: "j \<le> N" using assms(2) k by simp
  have fails: "\<forall>i<j. \<exists>e. runWithInputs c (copy_inputs a f l) (executed w + Suc i) = Throws e
                    \<and> retryable c f e"
  proof (intro allI impI)
    fix i assume "i < j"
    then have "Suc i \<in> {1..<k}" using k by simp
    with assms(3) show "\<exists>e. runWithInputs c (copy_inputs a f l) (executed w + Suc i) = Throws e
                    \<and> retryable c f e" by blast
  qed
  from retry_from_failures[OF fails jN, of "exhausted c" N 1 "[]"] obtain errs' where
    eq: "retry_from (exhausted c) (attempt c N a f l) N 1 [] w =
         retry_from (exhausted c) (attempt c N a f l) (N - j) (1 + j) errs'
           (after_attempts N a f l 1 j w)" by blast
  have "runWithInputs c (copy_inputs a f l) (Suc (executed (after_attempts N a f l 1 j w))) = Throws e"
    using assms(4) k by (simp add: after_attempts_executed)
  from retry_from_abort[OF this assms(5)] eq show ?thesis
    by (simp add: resolve_unfold after_attempts_snoc k del: after_attempts.simps)
qed

lemma resolve_trace:
  "\<exists>m. 1 \<le> m \<and> m \<le> N + 1
     \<and> executed (snd (resolveFunctionUrl c N a f l w)) = executed w + m
     \<and> events (snd (resolveFunctionUrl c N a f l w)) = events w @ attempts_events N a f l 1 m"
  using retry_from_bound[of N "exhausted c" c N a f l 1 "[]" w]
  unfolding resolve_unfold by auto

lemma resolve_success_clipboard:
  "resolveFunctionUrl c N a f l w = (Inr (), w1) \<Longrightarrow>
     runWithInputs c (copy_inputs a f l) (executed w1) = Copies (clipboard w1)"
  unfolding resolve_unfold by (rule retry_from_success_clipboard)

lemma validate_after_success:
  assumes "resolveFunctionUrl c retries a f l w = (Inr (), w1)"
  shows "validateFunctionUrl c a f l w =
     (case sendRequest c (hello_request (clipboard w1)) of
        Inl e \<Rightarrow> Inl e
      | Inr response \<Rightarrow>
          assert_ok (str_includes response ''Hello'' \<and> str_includes response ''World'')
            ''Expected function response to include \"Hello\" and \"World\"'',
      w1\<lparr>events := events w1 @ [ClipboardRead, SendRequest (hello_request (clipboard w1))]\<rparr>)"
  by (simp add: validateFunctionUrl_def assms clipboard_readText_def emit_def
      getDefaultRequest_def hello_request_def Let_def split: sum.split)

lemma attempts_events_writes:
  "ClipboardWrite s \<in> set (attempts_events n a f l k m) \<Longrightarrow> s = []"
  by (induction m arbitrary: k)
     (auto simp: attempts_events_0 attempts_events_Suc attempt_events_def split: if_splits)

lemma attempts_events_reads:
  "count_events (\<lambda>e. e = ClipboardRead) (attempts_events n a f l k m) = 0"
  by (induction m arbitrary: k)
     (simp_all add: attempts_events_0 attempts_events_Suc count_events_def attempt_events_def)

lemma attempts_events_requests:
  "count_events is_send_request (attempts_events n a f l k m) = 0"
  by (induction m arbitrary: k)
     (simp_all add: attempts_events_0 attempts_events_Suc count_events_def attempt_events_def
        is_send_request_def)

lemma count_events_append:
  "count_events P (xs @ ys) = count_events P xs + count_events P ys"
  by (simp add: count_events_def)

text \<open>
  When every attempt raises an error that is retried, the loop rejects with the error
  the library chooses among the errors raised.
\<close>

lemma retry_from_failures_errs:
  assumes "\<forall>i<length es. runWithInputs c (copy_inputs a f l) (executed w + Suc i) = Throws (es ! i)
                         \<and> retryable c f (es ! i)"
    and "length es \<le> left"
  shows "retry_from pick (attempt c n a f l) left k errs w =
           retry_from pick (attempt c n a f l) (left - length es) (k + length es) (errs @ es)
             (after_attempts n a f l k (length es) w)"
  using assms
proof (induction es arbitrary: left k errs w)
  case Nil
  then show ?case by simp
next
  case (Cons e es)
  from Cons.prems(2) obtain left' where left: "left = Suc left'" and le: "length es \<le> left'"
    by (cases left) auto
  from Cons.prems(1) have
    e: "runWithInputs c (copy_inputs a f l) (Suc (executed w)) = Throws e" "retryable c f e"
    by fastforce+
  let ?w1 = "after_attempt n a f l k w"
  have step: "retry_from pick (attempt c n a f l) left k errs w =
              retry_from pick (attempt c n a f l) left' (Suc k) (errs @ [e]) ?w1"
    by (simp add: left attempt_unfold e)
  have "\<forall>i<length es. runWithInputs c (copy_inputs a f l) (executed ?w1 + Suc i) = Throws (es ! i)
                         \<and> retryable c f (es ! i)"
  proof (intro allI impI)
    fix i assume "i < length es"
    then have "Suc i < length (e # es)" by simp
    from Cons.prems(1)[rule_format, OF this]
    show "runWithInputs c (copy_inputs a f l) (executed ?w1 + Suc i) = Throws (es ! i)
                         \<and> retryable c f (es ! i)"
      by (simp add: after_attempt_fields)
  qed
  from Cons.IH[OF this le, of "Suc k" "errs @ [e]"] step show ?case
    by (simp add: left)
qed

lemma all_attempts_fail:
  assumes "length es = N + 1"
    and "\<forall>i<N + 1. runWithInputs c (copy_inputs a f l) (executed w + Suc i) = Throws (es ! i)
                     \<and> retryable c f (es ! i)"
  shows "resolveFunctionUrl c N a f l w =
           (Inl (exhausted c es), after_attempts N a f l 1 (N + 1) w)"
proof -
  let ?bs = "butlast es"
  have len: "length ?bs = N" using assms(1) by simp
  have es: "es = ?bs @ [es ! N]"
    using assms(1) by (metis Suc_eq_plus1 append_butlast_last_id diff_Suc_1 last_conv_nth
        length_0_conv nat.simps(3))
  have "\<forall>i<length ?bs. runWithInputs c (copy_inputs a f l) (executed w + Suc i) = Throws (?bs ! i)
                         \<and> retryable c f (?bs ! i)"
    using assms(2) len by (simp add: nth_butlast)
  from retry_from_failures_errs[OF this, of N "exhausted c" N 1 "[]"] len
  have eq: "retry_from (exhausted c) (attempt c N a f l) N 1 [] w =
            retry_from (exhausted c) (attempt c N a f l) 0 (1 + N) ?bs
              (after_attempts N a f l 1 N w)"
    by simp
  have "runWithInputs c (copy_inputs a f l) (Suc (executed (after_attempts N a f l 1 N w)))
          = Throws (es ! N)" and r: "retryable c f (es ! N)"
    using assms(2) by (simp_all add: after_attempts_executed)
  from retry_from_exhausted[OF this] eq es show ?thesis
    by (simp add: resolve_unfold after_attempts_snoc del: after_attempts.simps)
qed

lemma retry_from_failure_clipboard:
  "retry_from pick (attempt c n a f l) left k errs w = (Inl e, w1) \<Longrightarrow> clipboard w1 = []"
proof (induction left arbitrary: k errs w)
  case 0
  then show ?case
    by (auto simp: attempt_unfold after_attempt_fields split: outcome.splits if_splits)
next
  case (Suc left)
  then show ?case
    by (auto simp: attempt_unfold after_attempt_fields split: outcome.splits if_splits)
qed

lemma resolve_failure_clipboard:
  "resolveFunctionUrl c N a f l w = (Inl e, w1) \<Longrightarrow> clipboard w1 = []"
  unfolding resolve_unfold by (rule retry_from_failure_clipboard)

lemma cleared_first_attempt:
  "cleared_first p (attempt_events n a f l k @ es) =
     cleared_first
       (Some (ExecuteCommand ''azureFunctions.copyFunctionUrl'' (copy_inputs a f l))) es"
  by (simp add: attempt_events_def is_execute_def)

lemma cleared_first_attempts:
  "cleared_first p (attempts_events n a f l k m)"
  by (induction m arbitrary: k p)
     (simp_all add: attempts_events_0 attempts_events_Suc cleared_first_attempt)

lemma count_executes:
  "count_events is_execute (attempts_events n a f l k m) = m"
  by (induction m arbitrary: k)
     (simp_all add: attempts_events_0 attempts_events_Suc count_events_def attempt_events_def
        is_execute_def)

lemma count_clears:
  "count_events (\<lambda>e. e = ClipboardWrite []) (attempts_events n a f l k m) = m"
  by (induction m arbitrary: k)
     (simp_all add: attempts_events_0 attempts_events_Suc count_events_def attempt_events_def)

lemma rewriting_aborts:
  "resolveFunctionUrl rewriting N ''appX'' ''funcAB12'' JavaScript fresh_world =
     (Inl (Error ''site is stopped''),
      after_attempts N ''appX'' ''funcAB12'' JavaScript 1 1 fresh_world)"
proof -
  have h1: "(1::nat) \<le> 1" and h2: "(1::nat) \<le> N + 1" by simp_all
  have h3: "\<forall>i\<in>{1..<1::nat}. \<exists>e. runWithInputs rewriting
              (copy_inputs ''appX'' ''funcAB12'' JavaScript) (executed fresh_world + i) = Throws e
              \<and> retryable rewriting ''funcAB12'' e"
    by simp
  have h4: "runWithInputs rewriting (copy_inputs ''appX'' ''funcAB12'' JavaScript)
        (executed fresh_world + 1) = Throws (Error azure_json)"
    by (simp add: rewriting_def)
  have p: "parseError rewriting (Error azure_json) = ''site is stopped''"
    by (simp add: rewriting_def)
  have h5: "\<not> retryable rewriting ''funcAB12'' (Error azure_json)"
    by (simp add: retryable_def p)
  from abort_aux[OF h1 h2 h3 h4 h5] show ?thesis by (simp add: p)
qed

section \<open>The scenarios, run\<close>

lemma scenario_resolves:
  assumes "runWithInputs c = runWithInputs (scenario 3)" and "parseError c = message"
  shows "resolveFunctionUrl c retries ''appX'' ''funcAB12'' JavaScript fresh_world =
           (Inr (), (after_attempts retries ''appX'' ''funcAB12'' JavaScript 1 (Suc 3) fresh_world)
                      \<lparr>clipboard := scenario_url\<rparr>)"
proof -
  have h1: "(3::nat) \<le> retries" by (simp add: retries_def)
  have h2: "\<forall>i\<in>{1..3}. \<exists>e. runWithInputs c (copy_inputs ''appX'' ''funcAB12'' JavaScript)
                            (executed fresh_world + i) = Throws e
                        \<and> retryable c ''funcAB12'' e"
    by (simp add: assms scenario_def fresh_world_def retryable_def race_error_def)
  have h3: "runWithInputs c (copy_inputs ''appX'' ''funcAB12'' JavaScript)
         (executed fresh_world + 3 + 1) = Copies scenario_url"
    by (simp add: assms scenario_def fresh_world_def scenario_url_def)
  from retry_then_success_aux[OF h1 h2 h3] show ?thesis .
qed

lemma scenario_world:
  "clipboard ((after_attempts retries ''appX'' ''funcAB12'' JavaScript 1 (Suc 3) fresh_world)
                      \<lparr>clipboard := scenario_url\<rparr>) = scenario_url"
  by simp

section \<open>The bounded retry loop\<close>

text \<open>
  C1. For every number of retries N, the flow makes between 1 and N+1 attempts: its
  calls are those of the attempts numbered 1 to m for some m \<le> N+1, one log line and
  one execution of the copy command per attempt. When every one of the N+1 executions
  throws, the loop ends with an error, and with the configured N = 4 validateFunctionUrl
  ends with the error of the loop instead of succeeding.
\<close>

theorem attempts_bounded:
  "(\<exists>m. 1 \<le> m \<and> m \<le> N + 1
       \<and> executed (snd (resolveFunctionUrl c N a f l w)) = executed w + m
       \<and> events (snd (resolveFunctionUrl c N a f l w)) = events w @ attempts_events N a f l 1 m
       \<and> count_events is_attempt_log (attempts_events N a f l 1 m) = m)
   \<and> ((\<forall>i\<in>{1..N + 1}. \<exists>e. runWithInputs c (copy_inputs a f l) (executed w + i) = Throws e)
        \<longrightarrow> (\<exists>e. fst (resolveFunctionUrl c N a f l w) = Inl e))
   \<and> (\<forall>e. fst (resolveFunctionUrl c retries a f l w) = Inl e
        \<longrightarrow> fst (validateFunctionUrl c a f l w) = Inl e)
   \<and> retries = 4"
proof -
  let ?R = "resolveFunctionUrl c N a f l w"
  from retry_from_bound[of N "exhausted c" c N a f l 1 "[]" w] obtain m where
    m: "1 \<le> m" "m \<le> Suc N"
       "executed (snd ?R) = executed w + m"
       "events (snd ?R) = events w @ attempts_events N a f l 1 m"
       "fst ?R = Inr () \<longleftrightarrow>
          (\<exists>u. runWithInputs c (copy_inputs a f l) (executed w + m) = Copies u)"
    unfolding resolve_unfold by blast
  have first: "\<exists>m. 1 \<le> m \<and> m \<le> N + 1
       \<and> executed (snd ?R) = executed w + m
       \<and> events (snd ?R) = events w @ attempts_events N a f l 1 m
       \<and> count_events is_attempt_log (attempts_events N a f l 1 m) = m"
    using m(1-4) count_attempt_logs[of N a f l 1 m] by auto
  have second: "\<exists>e. fst ?R = Inl e"
    if all: "\<forall>i\<in>{1..N + 1}. \<exists>e. runWithInputs c (copy_inputs a f l) (executed w + i) = Throws e"
  proof -
    from m(1,2) have "m \<in> {1..N + 1}" by simp
    with all obtain e where "runWithInputs c (copy_inputs a f l) (executed w + m) = Throws e"
      by blast
    with m(5) have "fst ?R \<noteq> Inr ()" by simp
    then show ?thesis by (cases "fst ?R") auto
  qed
  have third: "\<forall>e. fst (resolveFunctionUrl c retries a f l w) = Inl e
        \<longrightarrow> fst (validateFunctionUrl c a f l w) = Inl e"
    by (simp add: validateFunctionUrl_failed)
  from first second third show ?thesis by (simp add: retries_def)
qed

theorem attempts_bounded_witness:
  "(\<exists>m. 1 \<le> m \<and> m \<le> 4 + 1
       \<and> executed (snd (resolveFunctionUrl (scenario 9) 4 ''appX'' ''funcAB12'' JavaScript fresh_world))
           = executed fresh_world + m
       \<and> events (snd (resolveFunctionUrl (scenario 9) 4 ''appX'' ''funcAB12'' JavaScript fresh_world))
           = events fresh_world @ attempts_events 4 ''appX'' ''funcAB12'' JavaScript 1 m
       \<and> count_events is_attempt_log (attempts_events 4 ''appX'' ''funcAB12'' JavaScript 1 m) = m)
   \<and> map (\<lambda>i. runWithInputs (scenario 9) (copy_inputs ''appX'' ''funcAB12'' JavaScript)
                (executed fresh_world + i)) [1, 2, 3, 4, 5] = replicate 5 (Throws race_error)
   \<and> (\<exists>e. fst (resolveFunctionUrl (scenario 9) 4 ''appX'' ''funcAB12'' JavaScript fresh_world) = Inl e)
   \<and> (\<exists>e. fst (validateFunctionUrl (scenario 9) ''appX'' ''funcAB12'' JavaScript fresh_world) = Inl e)"
proof -
  have h: "\<forall>i\<in>{1..4 + 1}. \<exists>e. runWithInputs (scenario 9) (copy_inputs ''appX'' ''funcAB12'' JavaScript)
                              (executed fresh_world + i) = Throws e"
    by (simp add: scenario_def fresh_world_def)
  note t = attempts_bounded[of 4 "scenario 9" "''appX''" "''funcAB12''" JavaScript fresh_world]
  from t h have e1: "\<exists>e. fst (resolveFunctionUrl (scenario 9) 4 ''appX'' ''funcAB12'' JavaScript fresh_world) = Inl e"
    by blast
  from t have r: "retries = 4" by blast
  from t e1 have e2: "\<exists>e. fst (validateFunctionUrl (scenario 9) ''appX'' ''funcAB12'' JavaScript fresh_world) = Inl e"
    unfolding r by blast
  have h': "map (\<lambda>i. runWithInputs (scenario 9) (copy_inputs ''appX'' ''funcAB12'' JavaScript)
                (executed fresh_world + i)) [1, 2, 3, 4, 5] = replicate 5 (Throws race_error)"
    by (simp add: scenario_def fresh_world_def numeral_eq_Suc)
  from t h' e1 e2 show ?thesis by blast
qed

text \<open>
  C2. For every N and every k \<le> N: when the first k executions of the copy command each
  throw an error that is retried and the next one copies a URL, the loop succeeds after
  k + 1 attempts, and its calls are those of the attempts 1 to k + 1, of which k are
  refreshes: the first attempt makes none, and every later attempt refreshes right
  after its log line, before it clears the clipboard and runs the command.
\<close>

theorem retry_then_success:
  assumes "k \<le> N"
    and "\<forall>i\<in>{1..k}. \<exists>e. runWithInputs c (copy_inputs a f l) (executed w + i) = Throws e
                          \<and> retryable c f e"
    and "runWithInputs c (copy_inputs a f l) (executed w + k + 1) = Copies u"
  shows "fst (resolveFunctionUrl c N a f l w) = Inr ()
       \<and> executed (snd (resolveFunctionUrl c N a f l w)) = executed w + (k + 1)
       \<and> events (snd (resolveFunctionUrl c N a f l w)) =
           events w @ attempts_events N a f l 1 (k + 1)
       \<and> count_events is_attempt_log (attempts_events N a f l 1 (k + 1)) = k + 1
       \<and> count_events (\<lambda>e. e = Refresh) (attempts_events N a f l 1 (k + 1)) = k
       \<and> Refresh \<notin> set (attempt_events N a f l 1)
       \<and> (\<forall>i. i \<noteq> 1 \<longrightarrow> take 2 (attempt_events N a f l i) =
             [AppendLog (''copyFunctionUrl attempt '' @ show_nat i @ ''/'' @ show_nat (N + 1) @ ''...''),
              Refresh])
       \<and> clipboard (snd (resolveFunctionUrl c N a f l w)) = u"
proof -
  note r = retry_then_success_aux[OF assms]
  have "count_events (\<lambda>e. e = Refresh) (attempts_events N a f l 1 (k + 1)) = k"
    using count_refresh_first[of N a f l "k + 1"] by simp
  then show ?thesis
    by (simp add: r after_attempts_events after_attempts_executed count_attempt_logs
        attempt_events_def del: after_attempts.simps)
qed

theorem retry_then_success_witness:
  "(3::nat) \<le> 4
   \<and> map (\<lambda>i. runWithInputs (scenario 3) (copy_inputs ''appX'' ''funcAB12'' JavaScript)
                (executed fresh_world + i)) [1, 2, 3] = replicate 3 (Throws race_error)
   \<and> retryable (scenario 3) ''funcAB12'' race_error
   \<and> runWithInputs (scenario 3) (copy_inputs ''appX'' ''funcAB12'' JavaScript)
         (executed fresh_world + 3 + 1) = Copies ''https://appX.azurewebsites.net/api/funcAB12''
   \<and> fst (resolveFunctionUrl (scenario 3) 4 ''appX'' ''funcAB12'' JavaScript fresh_world) = Inr ()
   \<and> executed (snd (resolveFunctionUrl (scenario 3) 4 ''appX'' ''funcAB12'' JavaScript fresh_world)) = 4
   \<and> count_events (\<lambda>e. e = Refresh) (attempts_events 4 ''appX'' ''funcAB12'' JavaScript 1 (3 + 1)) = 3
   \<and> clipboard (snd (resolveFunctionUrl (scenario 3) 4 ''appX'' ''funcAB12'' JavaScript fresh_world))
       = ''https://appX.azurewebsites.net/api/funcAB12''"
proof -
  have h1: "(3::nat) \<le> 4" by simp
  have h2: "\<forall>i\<in>{1..3}. \<exists>e. runWithInputs (scenario 3) (copy_inputs ''appX'' ''funcAB12'' JavaScript)
                            (executed fresh_world + i) = Throws e
                        \<and> retryable (scenario 3) ''funcAB12'' e"
    by (simp add: scenario_def fresh_world_def retryable_def race_error_def)
  have h3: "runWithInputs (scenario 3) (copy_inputs ''appX'' ''funcAB12'' JavaScript)
         (executed fresh_world + 3 + 1) = Copies ''https://appX.azurewebsites.net/api/funcAB12''"
    by (simp add: scenario_def fresh_world_def)
  have ex: "executed fresh_world = 0" by (simp add: fresh_world_def)
  have h2': "map (\<lambda>i. runWithInputs (scenario 3) (copy_inputs ''appX'' ''funcAB12'' JavaScript)
                (executed fresh_world + i)) [1, 2, 3] = replicate 3 (Throws race_error)"
    by (simp add: scenario_def fresh_world_def numeral_eq_Suc)
  have h2'': "retryable (scenario 3) ''funcAB12'' race_error"
    by (simp add: scenario_def retryable_def race_error_def)
  from retry_then_success[OF h1 h2 h3] h1 h2' h2'' h3 show ?thesis
    by (simp add: ex)
qed

section \<open>Classifying the error of an attempt\<close>




text \<open>
  C4 (amended). When the k-th attempt (k \<le> N+1, the attempts before it retried) raises
  an error that is not retried, the loop ends on that attempt: the copy command has been
  executed k times and no more, the calls are those of the attempts 1 to k with k - 1
  refreshes (none when k = 1), and the error surfaced is a new error whose message is
  the one parseError read from the raised error; it is the raised error when parseError
  returns that error's own message. With the configured N = 4, validateFunctionUrl ends
  the same way.
\<close>

theorem nonretryable_aborts:
  assumes "1 \<le> k" and "k \<le> N + 1"
    and "\<forall>i\<in>{1..<k}. \<exists>e. runWithInputs c (copy_inputs a f l) (executed w + i) = Throws e
                          \<and> retryable c f e"
    and "runWithInputs c (copy_inputs a f l) (executed w + k) = Throws e"
    and "\<not> retryable c f e"
  shows "fst (resolveFunctionUrl c N a f l w) = Inl (Error (parseError c e))
       \<and> executed (snd (resolveFunctionUrl c N a f l w)) = executed w + k
       \<and> events (snd (resolveFunctionUrl c N a f l w)) = events w @ attempts_events N a f l 1 k
       \<and> count_events is_attempt_log (attempts_events N a f l 1 k) = k
       \<and> count_events (\<lambda>e. e = Refresh) (attempts_events N a f l 1 k) = k - 1
       \<and> (N = retries \<longrightarrow> validateFunctionUrl c a f l w = resolveFunctionUrl c N a f l w)
       \<and> (parseError c e = message e \<longrightarrow> fst (resolveFunctionUrl c N a f l w) = Inl e)"
proof -
  note r = abort_aux[OF assms]
  have v: "N = retries \<longrightarrow> validateFunctionUrl c a f l w = resolveFunctionUrl c N a f l w"
  proof
    assume N: "N = retries"
    with r have "fst (resolveFunctionUrl c retries a f l w) = Inl (Error (parseError c e))"
      by simp
    from validateFunctionUrl_failed[OF this] N
    show "validateFunctionUrl c a f l w = resolveFunctionUrl c N a f l w" by simp
  qed
  have c: "count_events (\<lambda>e. e = Refresh) (attempts_events N a f l 1 k) = k - 1"
    by (rule count_refresh_first)
  have u: "parseError c e = message e \<longrightarrow> fst (resolveFunctionUrl c N a f l w) = Inl e"
    by (simp add: r)
  show ?thesis
    using v c u
    by (simp add: r after_attempts_events after_attempts_executed count_attempt_logs
        del: after_attempts.simps)
qed

theorem nonretryable_aborts_witness:
  "(1::nat) \<le> 1 \<and> (1::nat) \<le> 4 + 1
   \<and> {1..<1::nat} = {}
   \<and> runWithInputs rewriting (copy_inputs ''appX'' ''funcAB12'' JavaScript)
        (executed fresh_world + 1) = Throws (Error azure_json)
   \<and> \<not> retryable rewriting ''funcAB12'' (Error azure_json)
   \<and> parseError rewriting (Error azure_json) = ''site is stopped''
   \<and> fst (validateFunctionUrl rewriting ''appX'' ''funcAB12'' JavaScript fresh_world)
       = Inl (Error ''site is stopped'')
   \<and> executed (snd (validateFunctionUrl rewriting ''appX'' ''funcAB12'' JavaScript fresh_world)) = 1
   \<and> count_events (\<lambda>e. e = Refresh) (attempts_events 4 ''appX'' ''funcAB12'' JavaScript 1 1) = 0
   \<and> runWithInputs timeout_scenario (copy_inputs ''appX'' ''funcAB12'' JavaScript)
        (executed fresh_world + 1) = Throws (Error ''network timeout'')
   \<and> \<not> retryable timeout_scenario ''funcAB12'' (Error ''network timeout'')
   \<and> parseError timeout_scenario (Error ''network timeout'') = message (Error ''network timeout'')
   \<and> fst (validateFunctionUrl timeout_scenario ''appX'' ''funcAB12'' JavaScript fresh_world)
       = Inl (Error ''network timeout'')"
proof -
  have h1: "(1::nat) \<le> 1" and h2: "(1::nat) \<le> 4 + 1" by simp_all
  have h3: "\<forall>i\<in>{1..<1::nat}. \<exists>e. runWithInputs rewriting
              (copy_inputs ''appX'' ''funcAB12'' JavaScript) (executed fresh_world + i) = Throws e
              \<and> retryable rewriting ''funcAB12'' e"
    by simp
  have h4: "runWithInputs rewriting (copy_inputs ''appX'' ''funcAB12'' JavaScript)
        (executed fresh_world + 1) = Throws (Error azure_json)"
    by (simp add: rewriting_def)
  have p: "parseError rewriting (Error azure_json) = ''site is stopped''"
    by (simp add: rewriting_def)
  have h5: "\<not> retryable rewriting ''funcAB12'' (Error azure_json)"
    by (simp add: retryable_def p)
  have g3: "\<forall>i\<in>{1..<1::nat}. \<exists>e. runWithInputs timeout_scenario
              (copy_inputs ''appX'' ''funcAB12'' JavaScript) (executed fresh_world + i) = Throws e
              \<and> retryable timeout_scenario ''funcAB12'' e"
    by simp
  have g4: "runWithInputs timeout_scenario (copy_inputs ''appX'' ''funcAB12'' JavaScript)
        (executed fresh_world + 1) = Throws (Error ''network timeout'')"
    by (simp add: timeout_scenario_def)
  have g5: "\<not> retryable timeout_scenario ''funcAB12'' (Error ''network timeout'')"
    by (simp add: timeout_scenario_def retryable_def)
  have q: "parseError timeout_scenario (Error ''network timeout'') = message (Error ''network timeout'')"
    by (simp add: timeout_scenario_def)
  have ex: "executed fresh_world = 0" by (simp add: fresh_world_def)
  from nonretryable_aborts[OF h1 h2 h3 h4 h5]
  have a: "fst (validateFunctionUrl rewriting ''appX'' ''funcAB12'' JavaScript fresh_world)
       = Inl (Error ''site is stopped'')
   \<and> executed (snd (validateFunctionUrl rewriting ''appX'' ''funcAB12'' JavaScript fresh_world)) = 1
   \<and> count_events (\<lambda>e. e = Refresh) (attempts_events 4 ''appX'' ''funcAB12'' JavaScript 1 1) = 0"
    by (simp add: p ex retries_def)
  from nonretryable_aborts[OF h1 h2 g3 g4 g5] q
  have b: "fst (validateFunctionUrl timeout_scenario ''appX'' ''funcAB12'' JavaScript fresh_world)
       = Inl (Error ''network timeout'')"
    by (simp add: retries_def)
  from h4 h5 p a g4 g5 q b show ?thesis by simp
qed

text \<open>
  The claim C4 as it was stated fails: the first attempt raises an error that is not
  retried, and the message of the error that validateFunctionUrl surfaces is not the
  message of the raised error.
\<close>

theorem nonretryable_aborts_counterexample:
  "runWithInputs rewriting (copy_inputs ''appX'' ''funcAB12'' JavaScript)
        (executed fresh_world + 1) = Throws (Error azure_json)
   \<and> \<not> retryable rewriting ''funcAB12'' (Error azure_json)
   \<and> fst (validateFunctionUrl rewriting ''appX'' ''funcAB12'' JavaScript fresh_world)
       = Inl (Error ''site is stopped'')
   \<and> message (Error ''site is stopped'') \<noteq> message (Error azure_json)"
proof -
  have t: "runWithInputs rewriting (copy_inputs ''appX'' ''funcAB12'' JavaScript)
        (executed fresh_world + 1) = Throws (Error azure_json)"
    by (simp add: rewriting_def)
  have p: "parseError rewriting (Error azure_json) = ''site is stopped''"
    by (simp add: rewriting_def)
  have n: "\<not> retryable rewriting ''funcAB12'' (Error azure_json)"
    by (simp add: retryable_def p)
  have "fst (resolveFunctionUrl rewriting retries ''appX'' ''funcAB12'' JavaScript fresh_world)
       = Inl (Error ''site is stopped'')"
    by (simp add: rewriting_aborts)
  from validateFunctionUrl_failed[OF this]
  have v: "fst (validateFunctionUrl rewriting ''appX'' ''funcAB12'' JavaScript fresh_world)
       = Inl (Error ''site is stopped'')"
    by (simp add: rewriting_aborts)
  have d: "message (Error ''site is stopped'') \<noteq> message (Error azure_json)"
    by (simp add: azure_json_def)
  from t n v d show ?thesis by blast
qed

section \<open>The final check of the deployed function\<close>

text \<open>
  C6. When the loop has succeeded, the clipboard holds the URL that the last execution
  of the copy command copied, and validateFunctionUrl reads it and sends one request
  to that URL, with the JSON body {"name": "World"}; these are its only further calls,
  and the copy command is not executed again. Given a response, validation passes
  exactly when the response contains "Hello" and contains "World"; otherwise it fails
  with the assertion's message. An error of the request ends the flow with that error.
\<close>

theorem final_check:
  assumes "resolveFunctionUrl c retries a f l w = (Inr (), w1)"
  shows "runWithInputs c (copy_inputs a f l) (executed w1) = Copies (clipboard w1)
       \<and> hello_request (clipboard w1) =
           \<lparr>url = clipboard w1, body = Some (JObject [(''name'', JString ''World'')]), json = True\<rparr>
       \<and> events (snd (validateFunctionUrl c a f l w)) =
           events w1 @ [ClipboardRead, SendRequest (hello_request (clipboard w1))]
       \<and> count_events is_send_request (events (snd (validateFunctionUrl c a f l w))) =
           count_events is_send_request (events w) + 1
       \<and> executed (snd (validateFunctionUrl c a f l w)) = executed w1
       \<and> (\<forall>response. sendRequest c (hello_request (clipboard w1)) = Inr response \<longrightarrow>
            (fst (validateFunctionUrl c a f l w) = Inr ()
               \<longleftrightarrow> str_includes response ''Hello'' \<and> str_includes response ''World'')
            \<and> (fst (validateFunctionUrl c a f l w) \<noteq> Inr () \<longrightarrow>
                 fst (validateFunctionUrl c a f l w) =
                   Inl (Error ''Expected function response to include \"Hello\" and \"World\"'')))
       \<and> (\<forall>e. sendRequest c (hello_request (clipboard w1)) = Inl e \<longrightarrow>
            fst (validateFunctionUrl c a f l w) = Inl e)"
proof -
  note v = validate_after_success[OF assms]
  from resolve_trace[of retries c a f l w] obtain m where
    "events w1 = events w @ attempts_events retries a f l 1 m"
    by (auto simp: assms)
  then have n: "count_events is_send_request (events w1) = count_events is_send_request (events w)"
    by (simp add: count_events_append attempts_events_requests)
  have "count_events is_send_request (events (snd (validateFunctionUrl c a f l w))) =
           count_events is_send_request (events w) + 1"
    by (simp add: v n [symmetric] count_events_append)
       (simp add: count_events_def is_send_request_def)
  moreover have "runWithInputs c (copy_inputs a f l) (executed w1) = Copies (clipboard w1)"
    using assms by (rule resolve_success_clipboard)
  moreover have "hello_request (clipboard w1) =
           \<lparr>url = clipboard w1, body = Some (JObject [(''name'', JString ''World'')]), json = True\<rparr>"
    by (simp add: hello_request_def)
  moreover have "events (snd (validateFunctionUrl c a f l w)) =
           events w1 @ [ClipboardRead, SendRequest (hello_request (clipboard w1))]"
    and "executed (snd (validateFunctionUrl c a f l w)) = executed w1"
    by (simp_all add: v)
  moreover have "\<forall>response. sendRequest c (hello_request (clipboard w1)) = Inr response \<longrightarrow>
            (fst (validateFunctionUrl c a f l w) = Inr ()
               \<longleftrightarrow> str_includes response ''Hello'' \<and> str_includes response ''World'')
            \<and> (fst (validateFunctionUrl c a f l w) \<noteq> Inr () \<longrightarrow>
                 fst (validateFunctionUrl c a f l w) =
                   Inl (Error ''Expected function response to include \"Hello\" and \"World\"''))"
    by (simp add: v assert_ok_def)
  moreover have "\<forall>e. sendRequest c (hello_request (clipboard w1)) = Inl e \<longrightarrow>
            fst (validateFunctionUrl c a f l w) = Inl e"
    by (simp add: v)
  ultimately show ?thesis by blast
qed

theorem final_check_witness:
  "fst (resolveFunctionUrl (scenario 3) retries ''appX'' ''funcAB12'' JavaScript fresh_world) = Inr ()
   \<and> sendRequest (scenario 3) (hello_request scenario_url) = Inr ''Hello, World''
   \<and> str_includes ''Hello, World'' ''Hello'' \<and> str_includes ''Hello, World'' ''World''
   \<and> fst (validateFunctionUrl (scenario 3) ''appX'' ''funcAB12'' JavaScript fresh_world) = Inr ()
   \<and> count_events is_send_request
        (events (snd (validateFunctionUrl (scenario 3) ''appX'' ''funcAB12'' JavaScript fresh_world))) = 1
   \<and> fst (resolveFunctionUrl (hello_only 3) retries ''appX'' ''funcAB12'' JavaScript fresh_world) = Inr ()
   \<and> sendRequest (hello_only 3) (hello_request scenario_url) = Inr ''Hello''
   \<and> str_includes ''Hello'' ''Hello'' \<and> \<not> str_includes ''Hello'' ''World''
   \<and> fst (validateFunctionUrl (hello_only 3) ''appX'' ''funcAB12'' JavaScript fresh_world)
       = Inl (Error ''Expected function response to include \"Hello\" and \"World\"'')"
proof -
  have r1: "resolveFunctionUrl (scenario 3) retries ''appX'' ''funcAB12'' JavaScript fresh_world =
           (Inr (), (after_attempts retries ''appX'' ''funcAB12'' JavaScript 1 (Suc 3) fresh_world)
                      \<lparr>clipboard := scenario_url\<rparr>)"
    by (rule scenario_resolves) (simp_all add: scenario_def)
  have r2: "resolveFunctionUrl (hello_only 3) retries ''appX'' ''funcAB12'' JavaScript fresh_world =
           (Inr (), (after_attempts retries ''appX'' ''funcAB12'' JavaScript 1 (Suc 3) fresh_world)
                      \<lparr>clipboard := scenario_url\<rparr>)"
    by (rule scenario_resolves) (simp_all add: hello_only_def scenario_def)
  have s1: "sendRequest (scenario 3) (hello_request scenario_url) = Inr ''Hello, World''"
    by (simp add: scenario_def)
  have s2: "sendRequest (hello_only 3) (hello_request scenario_url) = Inr ''Hello''"
    by (simp add: hello_only_def)
  have i1: "str_includes ''Hello, World'' ''Hello'' \<and> str_includes ''Hello, World'' ''World''"
    by simp
  have i2: "str_includes ''Hello'' ''Hello'' \<and> \<not> str_includes ''Hello'' ''World''"
    by simp
  have e0: "count_events is_send_request (events fresh_world) = 0"
    by (simp add: fresh_world_def count_events_def)
  note t1 = final_check[OF r1, unfolded scenario_world]
  note t2 = final_check[OF r2, unfolded scenario_world]
  from t1 s1 i1 have v1:
    "fst (validateFunctionUrl (scenario 3) ''appX'' ''funcAB12'' JavaScript fresh_world) = Inr ()"
    by blast
  from t1 have "count_events is_send_request
        (events (snd (validateFunctionUrl (scenario 3) ''appX'' ''funcAB12'' JavaScript fresh_world))) =
        count_events is_send_request (events fresh_world) + 1"
    by blast
  with e0 have n1: "count_events is_send_request
        (events (snd (validateFunctionUrl (scenario 3) ''appX'' ''funcAB12'' JavaScript fresh_world))) = 1"
    by simp
  from t2 s2 i2 have v2:
    "fst (validateFunctionUrl (hello_only 3) ''appX'' ''funcAB12'' JavaScript fresh_world)
       = Inl (Error ''Expected function response to include \"Hello\" and \"World\"'')"
    by blast
  from r1 r2 s1 s2 i1 i2 v1 n1 v2 show ?thesis by simp
qed

section \<open>The clipboard\<close>

text \<open>
  C8. For every number of retries, the loop makes m \<ge> 1 attempts and its calls are those
  of the attempts 1 to m: each attempt writes the empty string to the clipboard once
  and executes the copy command once, every execution of the command comes right after
  such a write, no other text is written and the clipboard is not read. When the loop
  fails the clipboard is left empty; when it succeeds the clipboard holds the URL that
  the last execution of the command copied. validateFunctionUrl adds no call to those
  of a failed loop, and to those of a successful loop one read of the clipboard,
  followed by the request to the URL read. copyFunctionUrl on its own makes the write
  and the execution and no other call. A refresh of the tree leaves the clipboard as
  it was.
\<close>

theorem clipboard_discipline:
  "(\<exists>m. 1 \<le> m
       \<and> events (snd (resolveFunctionUrl c N a f l w)) = events w @ attempts_events N a f l 1 m
       \<and> count_events (\<lambda>e. e = ClipboardWrite []) (attempts_events N a f l 1 m) = m
       \<and> count_events is_execute (attempts_events N a f l 1 m) = m
       \<and> cleared_first None (attempts_events N a f l 1 m)
       \<and> (\<forall>s. ClipboardWrite s \<in> set (attempts_events N a f l 1 m) \<longrightarrow> s = [])
       \<and> count_events (\<lambda>e. e = ClipboardRead) (attempts_events N a f l 1 m) = 0)
   \<and> (case fst (resolveFunctionUrl c N a f l w) of
         Inl e \<Rightarrow> clipboard (snd (resolveFunctionUrl c N a f l w)) = []
       | Inr u \<Rightarrow>
           runWithInputs c (copy_inputs a f l) (executed (snd (resolveFunctionUrl c N a f l w)))
             = Copies (clipboard (snd (resolveFunctionUrl c N a f l w))))
   \<and> events (snd (validateFunctionUrl c a f l w)) =
       events (snd (resolveFunctionUrl c retries a f l w))
       @ (case fst (resolveFunctionUrl c retries a f l w) of
            Inl e \<Rightarrow> []
          | Inr u \<Rightarrow>
              [ClipboardRead,
               SendRequest (hello_request (clipboard (snd (resolveFunctionUrl c retries a f l w))))])
   \<and> events (snd (copyFunctionUrl c a f l w)) =
       events w @ [ClipboardWrite [],
                   ExecuteCommand ''azureFunctions.copyFunctionUrl'' (copy_inputs a f l)]
   \<and> clipboard (snd (copyFunctionUrl c a f l w)) =
       (case runWithInputs c (copy_inputs a f l) (Suc (executed w)) of
          Throws e \<Rightarrow> []
        | Copies u \<Rightarrow> u)
   \<and> clipboard (tree_refresh w) = clipboard w"
proof -
  from resolve_trace[of N c a f l w] obtain m where
    m: "1 \<le> m" "events (snd (resolveFunctionUrl c N a f l w)) = events w @ attempts_events N a f l 1 m"
    by blast
  have writes: "\<forall>s. ClipboardWrite s \<in> set (attempts_events N a f l 1 m) \<longrightarrow> s = []"
    using attempts_events_writes by blast
  have loop: "\<exists>m. 1 \<le> m
       \<and> events (snd (resolveFunctionUrl c N a f l w)) = events w @ attempts_events N a f l 1 m
       \<and> count_events (\<lambda>e. e = ClipboardWrite []) (attempts_events N a f l 1 m) = m
       \<and> count_events is_execute (attempts_events N a f l 1 m) = m
       \<and> cleared_first None (attempts_events N a f l 1 m)
       \<and> (\<forall>s. ClipboardWrite s \<in> set (attempts_events N a f l 1 m) \<longrightarrow> s = [])
       \<and> count_events (\<lambda>e. e = ClipboardRead) (attempts_events N a f l 1 m) = 0"
    using m writes count_clears[of N a f l 1 m] count_executes[of N a f l 1 m]
      cleared_first_attempts[of None N a f l 1 m] attempts_events_reads[of N a f l 1 m]
    by blast
  obtain r w1 where R: "resolveFunctionUrl c N a f l w = (r, w1)"
    by (cases "resolveFunctionUrl c N a f l w")
  have after: "case fst (resolveFunctionUrl c N a f l w) of
         Inl e \<Rightarrow> clipboard (snd (resolveFunctionUrl c N a f l w)) = []
       | Inr u \<Rightarrow>
           runWithInputs c (copy_inputs a f l) (executed (snd (resolveFunctionUrl c N a f l w)))
             = Copies (clipboard (snd (resolveFunctionUrl c N a f l w)))"
  proof (cases r)
    case (Inl e)
    with R have "resolveFunctionUrl c N a f l w = (Inl e, w1)" by simp
    from resolve_failure_clipboard[OF this] show ?thesis by (simp add: R Inl)
  next
    case (Inr u)
    with R have "resolveFunctionUrl c N a f l w = (Inr (), w1)" by simp
    from resolve_success_clipboard[OF this] show ?thesis by (simp add: R Inr)
  qed
  obtain r' w1' where R': "resolveFunctionUrl c retries a f l w = (r', w1')"
    by (cases "resolveFunctionUrl c retries a f l w")
  have final: "events (snd (validateFunctionUrl c a f l w)) =
       events (snd (resolveFunctionUrl c retries a f l w))
       @ (case fst (resolveFunctionUrl c retries a f l w) of
            Inl e \<Rightarrow> []
          | Inr u \<Rightarrow>
              [ClipboardRead,
               SendRequest (hello_request (clipboard (snd (resolveFunctionUrl c retries a f l w))))])"
  proof (cases r')
    case (Inl e)
    with R' have "fst (resolveFunctionUrl c retries a f l w) = Inl e" by simp
    from validateFunctionUrl_failed[OF this] show ?thesis by (simp add: R' Inl)
  next
    case (Inr u)
    with R' have "resolveFunctionUrl c retries a f l w = (Inr (), w1')" by simp
    from validate_after_success[OF this] show ?thesis by (simp add: R' Inr)
  qed
  have copy: "events (snd (copyFunctionUrl c a f l w)) =
       events w @ [ClipboardWrite [],
                   ExecuteCommand ''azureFunctions.copyFunctionUrl'' (copy_inputs a f l)]
   \<and> clipboard (snd (copyFunctionUrl c a f l w)) =
       (case runWithInputs c (copy_inputs a f l) (Suc (executed w)) of
          Throws e \<Rightarrow> []
        | Copies u \<Rightarrow> u)"
    by (simp add: copyFunctionUrl_def clipboard_writeText_def emit_def Let_def
        split: outcome.split)
  have refresh: "clipboard (tree_refresh w) = clipboard w"
    by (simp add: tree_refresh_def emit_def)
  from loop after final copy refresh show ?thesis by blast
qed

theorem clipboard_discipline_witness:
  "clipboard fresh_world = ''stale''
   \<and> fst (resolveFunctionUrl (scenario 3) retries ''appX'' ''funcAB12'' JavaScript fresh_world) = Inr ()
   \<and> executed (snd (resolveFunctionUrl (scenario 3) retries ''appX'' ''funcAB12'' JavaScript fresh_world)) = 4
   \<and> runWithInputs (scenario 3) (copy_inputs ''appX'' ''funcAB12'' JavaScript) 4
       = Copies (clipboard (snd (resolveFunctionUrl (scenario 3) retries ''appX'' ''funcAB12'' JavaScript
                                  fresh_world)))
   \<and> events (snd (validateFunctionUrl (scenario 3) ''appX'' ''funcAB12'' JavaScript fresh_world)) =
       events (snd (resolveFunctionUrl (scenario 3) retries ''appX'' ''funcAB12'' JavaScript fresh_world))
       @ [ClipboardRead, SendRequest (hello_request scenario_url)]
   \<and> fst (resolveFunctionUrl rewriting retries ''appX'' ''funcAB12'' JavaScript fresh_world)
       = Inl (Error ''site is stopped'')
   \<and> clipboard (snd (resolveFunctionUrl rewriting retries ''appX'' ''funcAB12'' JavaScript fresh_world)) = []
   \<and> events (snd (validateFunctionUrl rewriting ''appX'' ''funcAB12'' JavaScript fresh_world)) =
       events (snd (resolveFunctionUrl rewriting retries ''appX'' ''funcAB12'' JavaScript fresh_world))
   \<and> clipboard (tree_refresh fresh_world) = ''stale''"
proof -
  note t1 = clipboard_discipline[of "scenario 3" retries "''appX''" "''funcAB12''" JavaScript fresh_world]
  note t2 = clipboard_discipline[of rewriting retries "''appX''" "''funcAB12''" JavaScript fresh_world]
  have r1: "resolveFunctionUrl (scenario 3) retries ''appX'' ''funcAB12'' JavaScript fresh_world =
           (Inr (), (after_attempts retries ''appX'' ''funcAB12'' JavaScript 1 (Suc 3) fresh_world)
                      \<lparr>clipboard := scenario_url\<rparr>)"
    by (rule scenario_resolves) (simp_all add: scenario_def)
  have c0: "clipboard fresh_world = ''stale''" and ex0: "executed fresh_world = 0"
    by (simp_all add: fresh_world_def)
  have s1: "fst (resolveFunctionUrl (scenario 3) retries ''appX'' ''funcAB12'' JavaScript fresh_world) = Inr ()"
    by (simp add: r1)
  have x1: "executed (snd (resolveFunctionUrl (scenario 3) retries ''appX'' ''funcAB12'' JavaScript fresh_world)) = 4"
    using ex0 by (simp add: r1 after_attempts_executed del: after_attempts.simps)
  have u1: "clipboard (snd (resolveFunctionUrl (scenario 3) retries ''appX'' ''funcAB12'' JavaScript fresh_world))
              = scenario_url"
    by (simp add: r1)
  from t1 have "case fst (resolveFunctionUrl (scenario 3) retries ''appX'' ''funcAB12'' JavaScript fresh_world) of
         Inl e \<Rightarrow> clipboard (snd (resolveFunctionUrl (scenario 3) retries ''appX'' ''funcAB12'' JavaScript fresh_world)) = []
       | Inr u \<Rightarrow>
           runWithInputs (scenario 3) (copy_inputs ''appX'' ''funcAB12'' JavaScript)
             (executed (snd (resolveFunctionUrl (scenario 3) retries ''appX'' ''funcAB12'' JavaScript fresh_world)))
             = Copies (clipboard (snd (resolveFunctionUrl (scenario 3) retries ''appX'' ''funcAB12'' JavaScript fresh_world)))"
    by blast
  then have a: "runWithInputs (scenario 3) (copy_inputs ''appX'' ''funcAB12'' JavaScript) 4
       = Copies (clipboard (snd (resolveFunctionUrl (scenario 3) retries ''appX'' ''funcAB12'' JavaScript
                                  fresh_world)))"
    by (simp add: s1 x1)
  from t1 have "events (snd (validateFunctionUrl (scenario 3) ''appX'' ''funcAB12'' JavaScript fresh_world)) =
       events (snd (resolveFunctionUrl (scenario 3) retries ''appX'' ''funcAB12'' JavaScript fresh_world))
       @ (case fst (resolveFunctionUrl (scenario 3) retries ''appX'' ''funcAB12'' JavaScript fresh_world) of
            Inl e \<Rightarrow> []
          | Inr u \<Rightarrow>
              [ClipboardRead,
               SendRequest (hello_request (clipboard (snd (resolveFunctionUrl (scenario 3) retries
                 ''appX'' ''funcAB12'' JavaScript fresh_world))))])"
    by blast
  then have b: "events (snd (validateFunctionUrl (scenario 3) ''appX'' ''funcAB12'' JavaScript fresh_world)) =
       events (snd (resolveFunctionUrl (scenario 3) retries ''appX'' ''funcAB12'' JavaScript fresh_world))
       @ [ClipboardRead, SendRequest (hello_request scenario_url)]"
    by (simp add: s1 u1)
  have s2: "fst (resolveFunctionUrl rewriting retries ''appX'' ''funcAB12'' JavaScript fresh_world)
       = Inl (Error ''site is stopped'')"
    by (simp add: rewriting_aborts)
  from t2 have "case fst (resolveFunctionUrl rewriting retries ''appX'' ''funcAB12'' JavaScript fresh_world) of
         Inl e \<Rightarrow> clipboard (snd (resolveFunctionUrl rewriting retries ''appX'' ''funcAB12'' JavaScript fresh_world)) = []
       | Inr u \<Rightarrow>
           runWithInputs rewriting (copy_inputs ''appX'' ''funcAB12'' JavaScript)
             (executed (snd (resolveFunctionUrl rewriting retries ''appX'' ''funcAB12'' JavaScript fresh_world)))
             = Copies (clipboard (snd (resolveFunctionUrl rewriting retries ''appX'' ''funcAB12'' JavaScript fresh_world)))"
    by blast
  then have d: "clipboard (snd (resolveFunctionUrl rewriting retries ''appX'' ''funcAB12'' JavaScript fresh_world)) = []"
    by (simp add: s2)
  from t2 have "events (snd (validateFunctionUrl rewriting ''appX'' ''funcAB12'' JavaScript fresh_world)) =
       events (snd (resolveFunctionUrl rewriting retries ''appX'' ''funcAB12'' JavaScript fresh_world))
       @ (case fst (resolveFunctionUrl rewriting retries ''appX'' ''funcAB12'' JavaScript fresh_world) of
            Inl e \<Rightarrow> []
          | Inr u \<Rightarrow>
              [ClipboardRead,
               SendRequest (hello_request (clipboard (snd (resolveFunctionUrl rewriting retries
                 ''appX'' ''funcAB12'' JavaScript fresh_world))))])"
    by blast
  then have e: "events (snd (validateFunctionUrl rewriting ''appX'' ''funcAB12'' JavaScript fresh_world)) =
       events (snd (resolveFunctionUrl rewriting retries ''appX'' ''funcAB12'' JavaScript fresh_world))"
    by (simp add: s2)
  from t1 c0 have g: "clipboard (tree_refresh fresh_world) = ''stale''" by simp
  from c0 s1 x1 a b s2 d e g show ?thesis by blast
qed

section \<open>The scaffold files of a new function app\<close>

text \<open>
  C7. In a run of createFunctionApp in which the prompts and the command-line tool
  succeed, tasks.json and launch.json are written exactly when neither of them existed
  in the .vscode folder of the target before: then tasks.json is written first and
  launch.json second, each once, with the text of the values below; otherwise nothing is
  written and the files are as the command-line tool left them. The value written to
  tasks.json has version "2.0.0" and a single task, named "Launch Function App", with
  identifier launchFunctionApp, type shell and isBackground true; the value written to
  launch.json has version "0.2.0" and a single configuration, with request attach, port
  5858 and the task's identifier as preLaunchTask.
\<close>

theorem scaffold_files:
  assumes "showQuickPick ed (folderPicks ed) = Inr folder"
    and "(if pick_data folder = Some ''newFolder'' then showFolderDialog ed
          else Inr (pick_label folder)) = Inr p"
    and "cliCreateFunctionApp ed p (files w) = Inr fs"
  shows "fst (createFunctionApp ed w) = Inr ()
       \<and> filter is_write (events (snd (createFunctionApp ed w))) =
           filter is_write (events w)
           @ (if path_join [p, ''.vscode'', ''tasks.json''] \<notin> dom (files w)
                 \<and> path_join [p, ''.vscode'', ''launch.json''] \<notin> dom (files w)
              then [WriteFile (path_join [p, ''.vscode'', ''tasks.json''])
                      (JSON_stringify ed tasksJson ''    ''),
                    WriteFile (path_join [p, ''.vscode'', ''launch.json''])
                      (JSON_stringify ed launchJson ''    '')]
              else [])
       \<and> files (snd (createFunctionApp ed w)) =
           (if path_join [p, ''.vscode'', ''tasks.json''] \<notin> dom (files w)
               \<and> path_join [p, ''.vscode'', ''launch.json''] \<notin> dom (files w)
            then fs(path_join [p, ''.vscode'', ''tasks.json''] \<mapsto> JSON_stringify ed tasksJson ''    '',
                    path_join [p, ''.vscode'', ''launch.json''] \<mapsto> JSON_stringify ed launchJson ''    '')
            else fs)
       \<and> path_join [p, ''.vscode'', ''tasks.json''] \<noteq> path_join [p, ''.vscode'', ''launch.json'']
       \<and> json_member ''version'' tasksJson = Some (JString ''2.0.0'')
       \<and> (\<exists>task. only_member ''tasks'' tasksJson = Some task
             \<and> json_member ''taskName'' task = Some (JString ''Launch Function App'')
             \<and> json_member ''identifier'' task = Some (JString ''launchFunctionApp'')
             \<and> json_member ''type'' task = Some (JString ''shell'')
             \<and> json_member ''isBackground'' task = Some (JBool True)
             \<and> json_member ''version'' launchJson = Some (JString ''0.2.0'')
             \<and> (\<exists>config. only_member ''configurations'' launchJson = Some config
                   \<and> json_member ''request'' config = Some (JString ''attach'')
                   \<and> json_member ''port'' config = Some (JNumber 5858)
                   \<and> json_member ''preLaunchTask'' config = json_member ''identifier'' task))"
proof -
  have run: "fst (createFunctionApp ed w) = Inr ()
       \<and> filter is_write (events (snd (createFunctionApp ed w))) =
           filter is_write (events w)
           @ (if path_join [p, ''.vscode'', ''tasks.json''] \<notin> dom (files w)
                 \<and> path_join [p, ''.vscode'', ''launch.json''] \<notin> dom (files w)
              then [WriteFile (path_join [p, ''.vscode'', ''tasks.json''])
                      (JSON_stringify ed tasksJson ''    ''),
                    WriteFile (path_join [p, ''.vscode'', ''launch.json''])
                      (JSON_stringify ed launchJson ''    '')]
              else [])
       \<and> files (snd (createFunctionApp ed w)) =
           (if path_join [p, ''.vscode'', ''tasks.json''] \<notin> dom (files w)
               \<and> path_join [p, ''.vscode'', ''launch.json''] \<notin> dom (files w)
            then fs(path_join [p, ''.vscode'', ''tasks.json''] \<mapsto> JSON_stringify ed tasksJson ''    '',
                    path_join [p, ''.vscode'', ''launch.json''] \<mapsto> JSON_stringify ed launchJson ''    '')
            else fs)"
    using assms
    by (cases "pick_data folder = Some ''newFolder''")
       (simp_all add: createFunctionApp_def existsSync_def writeToFile_def emit_def is_write_def
          Let_def del: path_join.simps)
  have paths: "path_join [p, ''.vscode'', ''tasks.json''] \<noteq> path_join [p, ''.vscode'', ''launch.json'']"
    by simp
  have contents: "json_member ''version'' tasksJson = Some (JString ''2.0.0'')
       \<and> (\<exists>task. only_member ''tasks'' tasksJson = Some task
             \<and> json_member ''taskName'' task = Some (JString ''Launch Function App'')
             \<and> json_member ''identifier'' task = Some (JString ''launchFunctionApp'')
             \<and> json_member ''type'' task = Some (JString ''shell'')
             \<and> json_member ''isBackground'' task = Some (JBool True)
             \<and> json_member ''version'' launchJson = Some (JString ''0.2.0'')
             \<and> (\<exists>config. only_member ''configurations'' launchJson = Some config
                   \<and> json_member ''request'' config = Some (JString ''attach'')
                   \<and> json_member ''port'' config = Some (JNumber 5858)
                   \<and> json_member ''preLaunchTask'' config = json_member ''identifier'' task))"
    by (simp add: tasksJson_def launchJson_def taskId_def json_member_def only_member_def
        only_element_def)
  from run paths contents show ?thesis by blast
qed

theorem scaffold_files_witness:
  "showQuickPick demo_editor (folderPicks demo_editor) = Inr (QuickPickItemWithData ''/work/app'' None None)
   \<and> cliCreateFunctionApp demo_editor ''/work/app'' (files fresh_world) =
       Inr [''/work/app/host.json'' \<mapsto> ''{}'']
   \<and> filter is_write (events (snd (createFunctionApp demo_editor fresh_world))) =
       [WriteFile ''/work/app/.vscode/tasks.json'' ''tasks'',
        WriteFile ''/work/app/.vscode/launch.json'' ''launch'']
   \<and> cliCreateFunctionApp demo_editor ''/work/app'' (files configured_world) =
       Inr [''/work/app/.vscode/launch.json'' \<mapsto> ''mine'', ''/work/app/host.json'' \<mapsto> ''{}'']
   \<and> filter is_write (events (snd (createFunctionApp demo_editor configured_world))) = []
   \<and> files (snd (createFunctionApp demo_editor configured_world)) =
       [''/work/app/.vscode/launch.json'' \<mapsto> ''mine'', ''/work/app/host.json'' \<mapsto> ''{}'']"
proof -
  let ?folder = "QuickPickItemWithData ''/work/app'' None None"
  have h1: "showQuickPick demo_editor (folderPicks demo_editor) = Inr ?folder"
    by (simp add: demo_editor_def folderPicks_def)
  have h2: "(if pick_data ?folder = Some ''newFolder'' then showFolderDialog demo_editor
          else Inr (pick_label ?folder)) = Inr ''/work/app''"
    by simp
  have h3: "cliCreateFunctionApp demo_editor ''/work/app'' (files fresh_world) =
       Inr [''/work/app/host.json'' \<mapsto> ''{}'']"
    by (simp add: demo_editor_def fresh_world_def)
  have h3': "cliCreateFunctionApp demo_editor ''/work/app'' (files configured_world) =
       Inr [''/work/app/.vscode/launch.json'' \<mapsto> ''mine'', ''/work/app/host.json'' \<mapsto> ''{}'']"
    by (simp add: demo_editor_def configured_world_def)
  have s: "JSON_stringify demo_editor tasksJson ''    '' = ''tasks''"
          "JSON_stringify demo_editor launchJson ''    '' = ''launch''"
    by (simp_all add: demo_editor_def tasksJson_def launchJson_def)
  have f1: "filter is_write (events fresh_world) = []" "files fresh_world = Map.empty"
    by (simp_all add: fresh_world_def)
  have f2: "filter is_write (events configured_world) = []"
    "files configured_world = [''/work/app/.vscode/launch.json'' \<mapsto> ''mine'']"
    by (simp_all add: configured_world_def fresh_world_def)
  from scaffold_files[OF h1 h2 h3]
  have a: "filter is_write (events (snd (createFunctionApp demo_editor fresh_world))) =
       [WriteFile ''/work/app/.vscode/tasks.json'' ''tasks'',
        WriteFile ''/work/app/.vscode/launch.json'' ''launch'']"
    by (simp add: s f1)
  from scaffold_files[OF h1 h2 h3']
  have b: "filter is_write (events (snd (createFunctionApp demo_editor configured_world))) = []
   \<and> files (snd (createFunctionApp demo_editor configured_world)) =
       [''/work/app/.vscode/launch.json'' \<mapsto> ''mine'', ''/work/app/host.json'' \<mapsto> ''{}'']"
    by (simp add: s f2)
  from h1 h3 h3' a b show ?thesis by blast
qed

section \<open>Properties of start, stop and restart\<close>

lemma startFunctionApp_defined:
  "events (snd (startFunctionApp (Some n) w)) \<noteq> events w"
  by (simp add: startFunctionApp_def appendLine_def emit_def Let_def split: option.split)

text \<open>
  C10. Called with an undefined node, each of startFunctionApp, stopFunctionApp and
  restartFunctionApp returns normally and leaves the world as it was: no action is
  invoked on a node and no line is appended to the output channel.
\<close>

theorem undefined_node_noop:
  "startFunctionApp None w = (Inr (), w)
   \<and> stopFunctionApp None w = (Inr (), w)
   \<and> restartFunctionApp None w = (Inr (), w)"
  by (simp add: startFunctionApp_def stopFunctionApp_def restartFunctionApp_def)

end
